theory Spec2Isabelle
  imports Main
begin

section \<open>Python values used by \<open>main.py\<close>\<close>

text \<open>
  A Python \<open>str\<close> is modelled as a \<open>string\<close>: one \<open>char\<close> per code point, for the code
  points 0 to 255. The whitespace test and the lower-casing below are the ones of
  \<open>str.strip()\<close> and \<open>str.lower()\<close> on that range.

  A Python \<open>dict\<close> is an association list in insertion order: storing under a key that
  is present keeps its position, storing under a new key appends.
\<close>

datatype error =
    Exception
  | KeyError string
  | FileNotFoundError string
  | OSError string
  | ValueError string

type_synonym ('k, 'v) dict = "('k \<times> 'v) list"

fun dict_set :: "('k, 'v) dict \<Rightarrow> 'k \<Rightarrow> 'v \<Rightarrow> ('k, 'v) dict" where
  "dict_set [] k v = [(k, v)]"
| "dict_set ((k', v') # d) k v =
     (if k' = k then (k', v) # d else (k', v') # dict_set d k v)"

definition dict_keys :: "('k, 'v) dict \<Rightarrow> 'k list" where
  "dict_keys d = map fst d"

definition dict_item :: "(string, 'v) dict \<Rightarrow> string \<Rightarrow> error + 'v" where
  \<comment> \<open>\<open>d[k]\<close>: a missing key raises KeyError.\<close>
  "dict_item d k = (case map_of d k of None \<Rightarrow> Inl (KeyError k) | Some v \<Rightarrow> Inr v)"

fun truthy :: "'a list option \<Rightarrow> bool" where
  \<comment> \<open>the truth value of an optional list: \<open>None\<close> and \<open>[]\<close> are false\<close>
  "truthy None = False"
| "truthy (Some []) = False"
| "truthy (Some (x # xs)) = True"

definition isspace :: "char \<Rightarrow> bool" where
  "isspace c =
     (let n = (of_char c :: nat)
      in (9 \<le> n \<and> n \<le> 13) \<or> (28 \<le> n \<and> n \<le> 32) \<or> n = 133 \<or> n = 160)"

definition lower_chr :: "char \<Rightarrow> char" where
  "lower_chr c =
     (let n = (of_char c :: nat)
      in if (65 \<le> n \<and> n \<le> 90) \<or> (192 \<le> n \<and> n \<le> 222 \<and> n \<noteq> 215)
         then char_of (n + 32) else c)"

definition lower :: "string \<Rightarrow> string" where
  "lower s = map lower_chr s"

definition strip_chars :: "(char \<Rightarrow> bool) \<Rightarrow> string \<Rightarrow> string" where
  \<comment> \<open>drop the characters satisfying \<open>P\<close> from both ends\<close>
  "strip_chars P s = rev (dropWhile P (rev (dropWhile P s)))"

definition strip :: "string \<Rightarrow> string" where
  \<comment> \<open>\<open>s.strip()\<close>\<close>
  "strip s = strip_chars isspace s"

definition dquote :: char where
  "dquote = CHR 0x22"

definition strip_dquote :: "string \<Rightarrow> string" where
  \<comment> \<open>\<open>s.strip('"')\<close>\<close>
  "strip_dquote s = strip_chars (\<lambda>c. c = dquote) s"

fun split :: "string \<Rightarrow> char \<Rightarrow> string list" where
  \<comment> \<open>\<open>s.split(sep)\<close> for a separator of one character: always at least one part\<close>
  "split [] sep = [[]]"
| "split (c # cs) sep =
     (if c = sep then [] # split cs sep
      else (c # hd (split cs sep)) # tl (split cs sep))"

definition slice :: "string \<Rightarrow> nat \<Rightarrow> nat \<Rightarrow> string" where
  \<comment> \<open>\<open>s[i:j]\<close> for \<open>0 \<le> i\<close> and \<open>0 \<le> j\<close>: both indices are clamped to the length\<close>
  "slice s i j = drop i (take j s)"

section \<open>Files\<close>

text \<open>
  The world holds the data directory (\<open>DATDIR\<close>, computed in the source from the
  configuration module), the text files that exist and can be read, by path, the paths
  that the operating system refuses with an error other than "no such file" (a name
  that is too long, a directory, a missing permission), and the paths passed to \<open>open\<close>
  so far, oldest first. Opening a path that has no file raises ValueError when the path
  holds a NUL character, an OSError (the constructor \<open>OSError\<close> stands for one that is
  not FileNotFoundError) when the system refuses the path, and FileNotFoundError
  otherwise.
\<close>

record world =
  DATDIR :: string
  files :: "string \<rightharpoonup> string"
  refused :: "string \<Rightarrow> bool"
  opened :: "string list"

definition NUL :: char where
  "NUL = CHR 0x00"

definition open_error :: "world \<Rightarrow> string \<Rightarrow> error" where
  \<comment> \<open>what \<open>open\<close> raises for a path that has no file\<close>
  "open_error w pth =
     (if NUL \<in> set pth then ValueError pth
      else if refused w pth then OSError pth
      else FileNotFoundError pth)"

definition LF :: char where
  "LF = CHR 0x0A"

definition CR :: char where
  "CR = CHR 0x0D"

fun universal_newlines :: "string \<Rightarrow> string" where
  \<comment> \<open>text mode with the default \<open>newline=None\<close>: CR LF and a lone CR are read as LF\<close>
  "universal_newlines [] = []"
| "universal_newlines [c] = (if c = CR then [LF] else [c])"
| "universal_newlines (c # d # cs) =
     (if c = CR then
        (if d = LF then LF # universal_newlines cs else LF # universal_newlines (d # cs))
      else c # universal_newlines (d # cs))"

fun readlines :: "string \<Rightarrow> string list" where
  \<comment> \<open>\<open>for line in file\<close>: each line keeps its terminating LF\<close>
  "readlines [] = []"
| "readlines (c # cs) =
     (if c = LF then [c] # readlines cs
      else (case readlines cs of [] \<Rightarrow> [[c]] | l # ls \<Rightarrow> (c # l) # ls))"

definition open_rt :: "world \<Rightarrow> string \<Rightarrow> (error + string list) \<times> world" where
  \<comment> \<open>\<open>open(pth, mode='rt', encoding='utf-8')\<close>, read as its sequence of lines\<close>
  "open_rt w pth =
     (case files w pth of
        None \<Rightarrow> Inl (open_error w pth)
      | Some txt \<Rightarrow> Inr (readlines (universal_newlines txt)),
      w\<lparr>opened := opened w @ [pth]\<rparr>)"

definition path_join :: "string \<Rightarrow> string \<Rightarrow> string" where
  \<comment> \<open>\<open>os.path.join(a, b)\<close> on POSIX\<close>
  "path_join a b =
     (if b \<noteq> [] \<and> hd b = CHR ''/'' then b
      else if a = [] \<or> last a = CHR ''/'' then a @ b
      else a @ ''/'' @ b)"

section \<open>The schema\<close>

definition COLUMNS :: "string list" where
  "COLUMNS = [''Volume'', ''Date'', ''Adj Close'', ''Close'', ''Open'', ''High'']"

definition COLWIDTHS :: "(string, nat) dict" where
  "COLWIDTHS = [(''Volume'', 14), (''Date'', 11), (''Adj Close'', 19), (''Close'', 10),
                (''Open'', 6), (''High'', 20)]"

section \<open>\<open>get_tics\<close>\<close>

fun get_tics_loop :: "string list \<Rightarrow> (string, string) dict \<Rightarrow> (string, string) dict" where
  \<comment> \<open>the loop over the lines; \<open>part[-1]\<close> and \<open>part[0]\<close> are read under \<open>len(part) >= 2\<close>\<close>
  "get_tics_loop [] tic_map = tic_map"
| "get_tics_loop (line # rest) tic_map =
     (let part = split (strip line) (CHR ''='')
      in if length part \<ge> 2
         then (let ticker_code = lower (strip_dquote (last part));
                   ticker_exchange = lower (strip_dquote (hd part))
               in get_tics_loop rest (dict_set tic_map ticker_code ticker_exchange))
         else get_tics_loop rest tic_map)"


section \<open>\<open>read_dat\<close> and \<open>line_to_dict\<close>\<close>

definition dat_path :: "world \<Rightarrow> string \<Rightarrow> string" where
  "dat_path w tic = path_join (DATDIR w) (tic @ ''_prc.dat'')"

definition read_dat :: "world \<Rightarrow> string \<Rightarrow> (error + string list) \<times> world" where
  "read_dat w tic =
     (case open_rt w (dat_path w tic) of
        (Inl e, w') \<Rightarrow> (Inl e, w')
      | (Inr lines, w') \<Rightarrow> (Inr (map strip lines), w'))"

fun line_to_dict_loop ::
  "string \<Rightarrow> string list \<Rightarrow> (string, string) dict \<Rightarrow> nat \<Rightarrow> error + (string, string) dict"
where
  \<comment> \<open>\<open>start\<close> and the widths are never negative, so no index counts from the end\<close>
  "line_to_dict_loop line [] result start = Inr result"
| "line_to_dict_loop line (col # cols) result start =
     (case dict_item COLWIDTHS col of
        Inl e \<Rightarrow> Inl e
      | Inr width \<Rightarrow>
          line_to_dict_loop line cols
            (dict_set result col (slice line start (start + width))) (start + width))"

definition line_to_dict :: "string \<Rightarrow> error + (string, string) dict" where
  "line_to_dict line = line_to_dict_loop line COLUMNS [] 0"

section \<open>Validation\<close>

fun verify_tickers_loop :: "(string, string) dict \<Rightarrow> string list \<Rightarrow> error + unit" where
  "verify_tickers_loop tic_exchange_dic [] = Inr ()"
| "verify_tickers_loop tic_exchange_dic (i # rest) =
     (if i \<in> set (dict_keys tic_exchange_dic) then verify_tickers_loop tic_exchange_dic rest
      else Inl Exception)"

definition verify_tickers :: "(string, string) dict \<Rightarrow> string list option \<Rightarrow> error + unit" where
  "verify_tickers tic_exchange_dic tickers_lst =
     (case tickers_lst of
        None \<Rightarrow> Inr ()
      | Some l \<Rightarrow>
          if length l > 0 then verify_tickers_loop tic_exchange_dic l else Inl Exception)"

fun verif_cols_loop :: "string list \<Rightarrow> error + unit" where
  "verif_cols_loop [] = Inr ()"
| "verif_cols_loop (i # rest) =
     (if i \<in> set COLUMNS then verif_cols_loop rest else Inl Exception)"

definition verif_cols :: "string list option \<Rightarrow> error + unit" where
  "verif_cols col_lst =
     (case col_lst of
        None \<Rightarrow> Inr ()
      | Some l \<Rightarrow> if length l > 0 then verif_cols_loop l else Inl Exception)"

section \<open>\<open>create_data_dict\<close>\<close>

record ticker_data =
  exchange :: string
  data :: "(string, string) dict list"

fun filter_ticker :: "string list \<Rightarrow> (string, string) dict \<Rightarrow> (string, string) dict
    \<Rightarrow> (string, string) dict" where
  \<comment> \<open>\<open>{key: raw_line[key] for key in col_lst if key in raw_line}\<close>\<close>
  "filter_ticker [] raw_line acc = acc"
| "filter_ticker (key # rest) raw_line acc =
     (case map_of raw_line key of
        None \<Rightarrow> filter_ticker rest raw_line acc
      | Some v \<Rightarrow> filter_ticker rest raw_line (dict_set acc key v))"

fun process_lines :: "string list option \<Rightarrow> string list \<Rightarrow> error + (string, string) dict list"
where
  \<comment> \<open>the loop of \<open>process_ticker_data\<close> over \<open>raw_data\<close>\<close>
  "process_lines col_lst [] = Inr []"
| "process_lines col_lst (line # rest) =
     (case line_to_dict line of
        Inl e \<Rightarrow> Inl e
      | Inr raw_line \<Rightarrow>
          (case process_lines col_lst rest of
             Inl e \<Rightarrow> Inl e
           | Inr processed \<Rightarrow>
               Inr ((case col_lst of
                       Some (c # cs) \<Rightarrow> filter_ticker (c # cs) raw_line []
                     | _ \<Rightarrow> raw_line) # processed)))"

definition process_ticker_data ::
  "(string, string) dict \<Rightarrow> string list option \<Rightarrow> world \<Rightarrow> string \<Rightarrow> (error + ticker_data) \<times> world"
where
  "process_ticker_data tic_exchange_dic col_lst w ticker =
     (case read_dat w ticker of
        (Inl e, w') \<Rightarrow> (Inl e, w')
      | (Inr raw_data, w') \<Rightarrow>
          (case process_lines col_lst raw_data of
             Inl e \<Rightarrow> (Inl e, w')
           | Inr processed_data \<Rightarrow>
               (case dict_item tic_exchange_dic ticker of
                  Inl e \<Rightarrow> (Inl e, w')
                | Inr ex \<Rightarrow> (Inr \<lparr>exchange = lower ex, data = processed_data\<rparr>, w'))))"

fun collect :: "(string, string) dict \<Rightarrow> string list option \<Rightarrow> world \<Rightarrow> string list
    \<Rightarrow> (string, ticker_data) dict \<Rightarrow> (error + (string, ticker_data) dict) \<times> world" where
  \<comment> \<open>\<open>{ticker: process_ticker_data(ticker) for ticker in target_ticker}\<close>\<close>
  "collect tic_exchange_dic col_lst w [] acc = (Inr acc, w)"
| "collect tic_exchange_dic col_lst w (ticker # rest) acc =
     (case process_ticker_data tic_exchange_dic col_lst w ticker of
        (Inl e, w') \<Rightarrow> (Inl e, w')
      | (Inr td, w') \<Rightarrow> collect tic_exchange_dic col_lst w' rest (dict_set acc ticker td))"

definition target_ticker :: "(string, string) dict \<Rightarrow> string list option \<Rightarrow> string list" where
  \<comment> \<open>\<open>tickers_lst or list(tic_exchange_dic.keys())\<close>\<close>
  "target_ticker tic_exchange_dic tickers_lst =
     (case tickers_lst of
        Some (t # ts) \<Rightarrow> t # ts
      | _ \<Rightarrow> dict_keys tic_exchange_dic)"

definition create_data_dict ::
  "world \<Rightarrow> (string, string) dict \<Rightarrow> string list option \<Rightarrow> string list option
     \<Rightarrow> (error + (string, ticker_data) dict) \<times> world"
where
  "create_data_dict w tic_exchange_dic tickers_lst col_lst0 =
     (let col_lst = (if \<not> truthy col_lst0 then None else col_lst0)
      in case (if truthy col_lst then verif_cols col_lst else Inr ()) of
           Inl e \<Rightarrow> (Inl e, w)
         | Inr _ \<Rightarrow>
             (case (if truthy tickers_lst then verify_tickers tic_exchange_dic tickers_lst
                    else Inr ()) of
                Inl e \<Rightarrow> (Inl e, w)
              | Inr _ \<Rightarrow>
                  collect tic_exchange_dic col_lst w
                    (target_ticker tic_exchange_dic tickers_lst) []))"

section \<open>Notions the properties are stated with\<close>

text \<open>
  The layout of a record: every column of \<open>COLUMNS\<close> with the cursor position at which
  its field starts (the sum of the widths before it) and its width.
\<close>

fun cumulative :: "string list \<Rightarrow> nat \<Rightarrow> (string \<times> nat \<times> nat) list" where
  "cumulative [] start = []"
| "cumulative (col # cols) start =
     (case map_of COLWIDTHS col of
        None \<Rightarrow> []
      | Some width \<Rightarrow> (col, start, width) # cumulative cols (start + width))"

definition layout :: "(string \<times> nat \<times> nat) list" where
  "layout = cumulative COLUMNS 0"

text \<open>
  A well-formed line of the lookup file, \<open>"E"="T"\<close>, and a lookup file as the text of its
  lines joined by LF. An item \<open>None\<close> is an empty line, so a text that ends with LF has
  \<open>None\<close> as its last item.
\<close>

definition lookup_line :: "string \<Rightarrow> string \<Rightarrow> string" where
  "lookup_line E T = dquote # E @ dquote # CHR ''='' # dquote # T @ [dquote]"





text \<open>
  The example of the specification: the map \<open>{"aapl": "nasdaq"}\<close> and a data directory
  with one file, for \<open>aapl\<close>, of one line.
\<close>

definition example_line :: string where
  "example_line = ''        100'' @ ''2020-01-01 '' @ ''   150.00000000000''"

definition example_world :: world where
  "example_world =
     \<lparr>DATDIR = ''data'', files = [''data/aapl_prc.dat'' \<mapsto> example_line],
      refused = (\<lambda>p. False), opened = []\<rparr>"



section \<open>The fixed-width decoder\<close>

lemma layout_eq:
  "layout = [(''Volume'', 0, 14), (''Date'', 14, 11), (''Adj Close'', 25, 19),
             (''Close'', 44, 10), (''Open'', 54, 6), (''High'', 60, 20)]"
  by (simp add: layout_def COLUMNS_def COLWIDTHS_def)

lemma line_to_dict_eq:
  "line_to_dict line =
     Inr [(''Volume'', take 14 line), (''Date'', take 11 (drop 14 line)),
          (''Adj Close'', take 19 (drop 25 line)), (''Close'', take 10 (drop 44 line)),
          (''Open'', take 6 (drop 54 line)), (''High'', take 20 (drop 60 line))]"
  by (simp add: line_to_dict_def COLUMNS_def COLWIDTHS_def dict_item_def slice_def drop_take)

lemma line_to_dict_keys: "line_to_dict line = Inr d \<Longrightarrow> dict_keys d = COLUMNS"
  by (auto simp add: line_to_dict_eq dict_keys_def COLUMNS_def)

text \<open>
  C6. \<open>line_to_dict\<close> never fails, whatever the line and however short: it returns a
  dictionary with one entry per schema column, in schema order. The entry of a column is
  the slice of the line from the column's cursor position to that position plus its
  width; it is empty when the cursor position is at or beyond the end of the line, and it
  is the rest of the line when the line ends inside the field.
\<close>

theorem line_to_dict_never_fails:
  "\<exists>d. line_to_dict line = Inr d \<and> dict_keys d = COLUMNS \<and> map fst layout = COLUMNS \<and>
     (\<forall>(col, start, width) \<in> set layout.
        map_of d col = Some (slice line start (start + width)) \<and>
        (length line \<le> start \<longrightarrow> map_of d col = Some []) \<and>
        (start < length line \<and> length line < start + width
           \<longrightarrow> map_of d col = Some (drop start line)))"
  by (auto simp add: line_to_dict_eq layout_eq dict_keys_def COLUMNS_def slice_def drop_take)

theorem line_to_dict_never_fails_witness:
  "\<exists>d. line_to_dict ''abcdefghijklmnopqrst'' = Inr d \<and> (''Date'', 14, 11) \<in> set layout \<and>
       (''Close'', 44, 10) \<in> set layout \<and>
       map_of d ''Date'' = Some ''opqrst'' \<and> map_of d ''Close'' = Some []"
  using line_to_dict_never_fails [of "''abcdefghijklmnopqrst''"]
  by (auto simp add: layout_eq)

lemma take_append_take_drop: "take a xs @ take b (drop a xs) = take (a + b) xs"
  by (simp add: take_add)

text \<open>
  C10. The values of \<open>line_to_dict line\<close>, concatenated in \<open>COLUMNS\<close> order, are the first
  80 characters of the line, 80 being the sum of the widths; for a line of at most 80
  characters the concatenation is the line itself.
\<close>

theorem line_to_dict_concat:
  "\<exists>d. line_to_dict line = Inr d \<and> dict_keys d = COLUMNS \<and>
       sum_list (map snd COLWIDTHS) = 80 \<and>
       concat (map snd d) = take 80 line \<and>
       (length line \<le> 80 \<longrightarrow> concat (map snd d) = line)"
proof -
  let ?d = "[(''Volume'', take 14 line), (''Date'', take 11 (drop 14 line)),
          (''Adj Close'', take 19 (drop 25 line)), (''Close'', take 10 (drop 44 line)),
          (''Open'', take 6 (drop 54 line)), (''High'', take 20 (drop 60 line))]"
  have "take 14 line @ take 11 (drop 14 line) @ take 19 (drop 25 line) @
          take 10 (drop 44 line) @ take 6 (drop 54 line) @ take 20 (drop 60 line) =
        take 80 line"
    using take_append_take_drop [of 14 line 11] take_append_take_drop [of 25 line 19]
      take_append_take_drop [of 44 line 10] take_append_take_drop [of 54 line 6]
      take_append_take_drop [of 60 line 20]
    by (simp only: append_assoc [symmetric] numeral_plus_numeral semiring_norm)
  then have c: "concat (map snd ?d) = take 80 line"
    by simp
  have l: "length line \<le> 80 \<longrightarrow> concat (map snd ?d) = line"
    unfolding c by simp
  have k: "dict_keys ?d = COLUMNS"
    by (simp add: dict_keys_def COLUMNS_def)
  have s: "sum_list (map snd COLWIDTHS) = 80"
    by (simp add: COLWIDTHS_def)
  have "line_to_dict line = Inr ?d"
    by (rule line_to_dict_eq)
  with k s c l show ?thesis by blast
qed

theorem line_to_dict_concat_witness:
  "\<exists>d. line_to_dict ''abcdefghijklmnopqrst'' = Inr d \<and>
       length ''abcdefghijklmnopqrst'' \<le> 80 \<and>
       concat (map snd d) = ''abcdefghijklmnopqrst''"
  using line_to_dict_concat [of "''abcdefghijklmnopqrst''"]
  by auto

section \<open>The ticker-exchange loader\<close>

lemma map_of_dict_set: "map_of (dict_set d k v) = (map_of d)(k \<mapsto> v)"
  by (induction d k v rule: dict_set.induct) (auto simp: fun_eq_iff)

lemma dropWhile_all: "\<forall>c \<in> set ws. P c \<Longrightarrow> dropWhile P ws = []"
  by (induction ws) auto

lemma dropWhile_pad: "\<forall>c \<in> set ws. P c \<Longrightarrow> dropWhile P (ws @ xs) = dropWhile P xs"
  by (induction ws) auto

lemma strip_chars_pad:
  assumes "\<forall>c \<in> set ws1. P c" and "\<forall>c \<in> set ws2. P c"
    and "body \<noteq> []" and "\<not> P (hd body)" and "\<not> P (last body)"
  shows "strip_chars P (ws1 @ body @ ws2) = body"
proof -
  obtain b bs where b: "body = b # bs"
    using assms(3) by (cases body) auto
  have "dropWhile P (ws1 @ body @ ws2) = dropWhile P (body @ ws2)"
    using assms(1) by (rule dropWhile_pad)
  also have "\<dots> = body @ ws2"
    using assms(4) b by simp
  finally have 1: "dropWhile P (ws1 @ body @ ws2) = body @ ws2" .
  have "dropWhile P (rev (body @ ws2)) = dropWhile P (rev body)"
    using assms(2) by (simp add: dropWhile_pad)
  also have "\<dots> = rev body"
  proof -
    have "rev body \<noteq> []" and "\<not> P (hd (rev body))"
      using assms(3,5) by (simp_all add: hd_rev)
    then show ?thesis by (cases "rev body") auto
  qed
  finally show ?thesis
    by (simp add: strip_chars_def 1)
qed


lemma strip_chars_Cons: "P q \<Longrightarrow> strip_chars P (q # s) = strip_chars P s"
  by (simp add: strip_chars_def)

lemma strip_chars_snoc: "P q \<Longrightarrow> strip_chars P (s @ [q]) = strip_chars P s"
proof (cases "\<forall>c \<in> set s. P c")
  case True
  assume "P q"
  with True show ?thesis by (simp add: strip_chars_def dropWhile_all)
next
  case False
  assume "P q"
  from False have "dropWhile P s \<noteq> []" by (simp add: dropWhile_eq_Nil_conv)
  moreover from False have "dropWhile P (s @ [q]) = dropWhile P s @ [q]"
    by (auto simp: dropWhile_append1)
  ultimately show ?thesis using \<open>P q\<close> by (simp add: strip_chars_def)
qed

lemma split_no_sep: "sep \<notin> set a \<Longrightarrow> split a sep = [a]"
  by (induction a) auto

lemma split_append: "sep \<notin> set a \<Longrightarrow> split (a @ sep # b) sep = a # split b sep"
  by (induction a) auto


lemma not_isspace_dquote: "\<not> isspace dquote"
  by (simp add: isspace_def dquote_def)

lemma strip_lookup_line:
  assumes "\<forall>c \<in> set ws1. isspace c" and "\<forall>c \<in> set ws2. isspace c"
  shows "strip (ws1 @ lookup_line E T @ ws2) = lookup_line E T"
  unfolding strip_def
  by (rule strip_chars_pad) (use assms in \<open>simp_all add: lookup_line_def not_isspace_dquote\<close>)

lemma split_lookup_line:
  assumes "CHR ''='' \<notin> set E" and "CHR ''='' \<notin> set T"
  shows "split (lookup_line E T) (CHR ''='') = [dquote # E @ [dquote], dquote # T @ [dquote]]"
proof -
  let ?a = "dquote # E @ [dquote]" and ?b = "dquote # T @ [dquote]"
  have l: "lookup_line E T = ?a @ CHR ''='' # ?b"
    by (simp add: lookup_line_def)
  have a: "CHR ''='' \<notin> set ?a"
    using assms(1) by (simp add: dquote_def)
  have b: "CHR ''='' \<notin> set ?b"
    using assms(2) by (simp add: dquote_def)
  show ?thesis
    unfolding l split_append [OF a] split_no_sep [OF b] ..
qed

lemma strip_dquote_quoted: "strip_dquote (dquote # s @ [dquote]) = strip_dquote s"
proof -
  have "strip_dquote (dquote # s @ [dquote]) = strip_dquote (s @ [dquote])"
    unfolding strip_dquote_def by (rule strip_chars_Cons) simp
  also have "\<dots> = strip_dquote s"
    unfolding strip_dquote_def by (rule strip_chars_snoc) simp
  finally show ?thesis .
qed

lemma get_tics_loop_lookup_line:
  assumes "\<forall>c \<in> set ws1. isspace c" and "\<forall>c \<in> set ws2. isspace c"
    and "CHR ''='' \<notin> set E" and "CHR ''='' \<notin> set T"
  shows "get_tics_loop ((ws1 @ lookup_line E T @ ws2) # rest) tic_map =
         get_tics_loop rest
           (dict_set tic_map (lower (strip_dquote T)) (lower (strip_dquote E)))"
  by (simp add: strip_lookup_line [OF assms(1,2)] split_lookup_line [OF assms(3,4)]
      strip_dquote_quoted Let_def del: split.simps)






















lemma lower_examples:
  "lower ''IBM'' = ''ibm''" "lower ''ibm'' = ''ibm''" "lower ''NYSE'' = ''nyse''"
  "lower ''Nasdaq'' = ''nasdaq''" "lower ''nasdaq'' = ''nasdaq''"
  by code_simp+


text \<open>
  C4, as the code has it. A line \<open>"EXCHANGE"="TICKER"\<close> with whitespace (the line
  terminator included) only before the first and after the last quote, and no \<open>=\<close> in
  either part, stores one entry: the key is the ticker part and the value the exchange
  part, each stripped of the double quotes around it and lower-cased. Whitespace next to
  the \<open>=\<close> or inside the quotes is not removed.
\<close>

theorem get_tics_line_entry:
  assumes "\<forall>c \<in> set ws1. isspace c" and "\<forall>c \<in> set ws2. isspace c"
    and "CHR ''='' \<notin> set E" and "CHR ''='' \<notin> set T"
  shows "get_tics_loop ((ws1 @ lookup_line E T @ ws2) # rest) tic_map =
           get_tics_loop rest
             (dict_set tic_map (lower (strip_dquote T)) (lower (strip_dquote E))) \<and>
         map_of (get_tics_loop [ws1 @ lookup_line E T @ ws2] tic_map) (lower (strip_dquote T)) =
           Some (lower (strip_dquote E))"
  using get_tics_loop_lookup_line [OF assms]
  by (simp add: map_of_dict_set del: get_tics_loop.simps(2))

theorem get_tics_line_entry_witness:
  "map_of (get_tics_loop [''  '' @ lookup_line ''NYSE'' ''IBM'' @ '' '' @ [LF]] []) ''ibm'' =
     Some ''nyse''"
proof -
  have "strip_dquote ''IBM'' = ''IBM''" and "strip_dquote ''NYSE'' = ''NYSE''"
    by code_simp+
  then show ?thesis
    using get_tics_line_entry [of "''  ''" "'' '' @ [LF]" "''NYSE''" "''IBM''" "[]" "[]"]
    by (simp add: lower_examples isspace_def LF_def del: get_tics_loop.simps(2))
qed

text \<open>
  C4 as stated fails: with a space on each side of the \<open>=\<close>, the key keeps the space and
  the opening quote, the value keeps the closing quote and the space, and there is no
  entry for \<open>ibm\<close>.
\<close>

theorem get_tics_inner_space_counterexample:
  "get_tics_loop [dquote # ''NYSE'' @ dquote # '' = '' @ dquote # ''IBM'' @ [dquote]] [] =
     [(CHR '' '' # dquote # ''ibm'', ''nyse'' @ [dquote, CHR '' ''])] \<and>
   map_of (get_tics_loop [dquote # ''NYSE'' @ dquote # '' = '' @ dquote # ''IBM'' @ [dquote]] [])
     ''ibm'' = None"
  by code_simp

section \<open>The dataset assembler\<close>

lemma dat_path_opened: "dat_path (w\<lparr>opened := x\<rparr>) t = dat_path w t"
  by (simp add: dat_path_def)

lemma read_dat_missing:
  "files w (dat_path w t) = None \<Longrightarrow>
   read_dat w t =
     (Inl (open_error w (dat_path w t)), w\<lparr>opened := opened w @ [dat_path w t]\<rparr>)"
  by (simp add: read_dat_def open_rt_def)

lemma open_error_opened: "open_error (w\<lparr>opened := x\<rparr>) pth = open_error w pth"
  by (simp add: open_error_def)

lemma open_error_not_Exception: "open_error w pth \<noteq> Exception"
  by (simp add: open_error_def)

lemma read_dat_present:
  "files w (dat_path w t) = Some txt \<Longrightarrow>
   read_dat w t = (Inr (map strip (readlines (universal_newlines txt))),
                   w\<lparr>opened := opened w @ [dat_path w t]\<rparr>)"
  by (simp add: read_dat_def open_rt_def)

lemma process_lines_total: "\<exists>recs. process_lines col_lst ls = Inr recs"
  by (induction ls) (auto simp: line_to_dict_eq)

lemma process_lines_all_columns:
  "\<not> truthy col_lst \<Longrightarrow> process_lines col_lst ls = Inr recs \<Longrightarrow>
   \<forall>r \<in> set recs. dict_keys r = COLUMNS"
proof (induction ls arbitrary: recs)
  case Nil
  then show ?case by simp
next
  case (Cons l ls)
  obtain rest where rest: "process_lines col_lst ls = Inr rest"
    using process_lines_total by blast
  obtain d where d: "line_to_dict l = Inr d"
    by (simp add: line_to_dict_eq)
  have "case col_lst of Some (c # cs) \<Rightarrow> False | _ \<Rightarrow> True"
    using Cons.prems(1) by (cases col_lst rule: truthy.cases) auto
  then have "recs = d # rest"
    using Cons.prems(2) rest d by (auto split: option.splits list.splits)
  with Cons.IH [OF Cons.prems(1) rest] line_to_dict_keys [OF d] show ?case
    by simp
qed

lemma dict_item_present:
  "t \<in> set (dict_keys dic) \<Longrightarrow> \<exists>ex. dict_item dic t = Inr ex"
  by (cases "map_of dic t") (auto simp: dict_item_def dict_keys_def map_of_eq_None_iff)

lemma process_ticker_data_missing:
  "files w (dat_path w t) = None \<Longrightarrow>
   process_ticker_data dic col_lst w t =
     (Inl (open_error w (dat_path w t)), w\<lparr>opened := opened w @ [dat_path w t]\<rparr>)"
  by (simp add: process_ticker_data_def read_dat_missing)

lemma process_ticker_data_present:
  assumes "files w (dat_path w t) = Some txt" and "t \<in> set (dict_keys dic)"
  shows "\<exists>ex recs. dict_item dic t = Inr ex \<and>
           process_lines col_lst (map strip (readlines (universal_newlines txt))) = Inr recs \<and>
           process_ticker_data dic col_lst w t =
             (Inr \<lparr>exchange = lower ex, data = recs\<rparr>, w\<lparr>opened := opened w @ [dat_path w t]\<rparr>)"
proof -
  obtain ex where ex: "dict_item dic t = Inr ex"
    using dict_item_present [OF assms(2)] by blast
  obtain recs where recs:
    "process_lines col_lst (map strip (readlines (universal_newlines txt))) = Inr recs"
    using process_lines_total by blast
  show ?thesis
    using ex recs by (simp add: process_ticker_data_def read_dat_present [OF assms(1)])
qed

lemma process_ticker_data_not_Exception:
  "fst (process_ticker_data dic col_lst w t) \<noteq> Inl Exception"
proof (cases "files w (dat_path w t)")
  case None
  then show ?thesis by (simp add: process_ticker_data_missing open_error_not_Exception)
next
  case (Some content)
  obtain recs where
    "process_lines col_lst (map strip (readlines (universal_newlines content))) = Inr recs"
    using process_lines_total by blast
  then show ?thesis
    by (simp add: process_ticker_data_def read_dat_present [OF Some] dict_item_def
        split: option.splits)
qed

lemma collect_not_Exception: "fst (collect dic col_lst w ts acc) \<noteq> Inl Exception"
proof (induction ts arbitrary: w acc)
  case Nil
  then show ?case by simp
next
  case (Cons t ts)
  obtain r w' where r: "process_ticker_data dic col_lst w t = (r, w')"
    by (cases "process_ticker_data dic col_lst w t")
  with process_ticker_data_not_Exception [of dic col_lst w t] have "r \<noteq> Inl Exception"
    by simp
  with r Cons.IH show ?case
    by (cases r) auto
qed

lemma verify_tickers_loop_iff:
  "verify_tickers_loop dic ts = (if set ts \<subseteq> set (dict_keys dic) then Inr () else Inl Exception)"
  by (induction ts) auto

lemma verif_cols_loop_iff:
  "verif_cols_loop cs = (if set cs \<subseteq> set COLUMNS then Inr () else Inl Exception)"
  by (induction cs) auto

lemma create_data_dict_invalid:
  assumes "(\<exists>ts. tickers_lst = Some ts \<and> ts \<noteq> [] \<and> \<not> set ts \<subseteq> set (dict_keys dic)) \<or>
           (\<exists>cs. col_lst = Some cs \<and> cs \<noteq> [] \<and> \<not> set cs \<subseteq> set COLUMNS)"
  shows "create_data_dict w dic tickers_lst col_lst = (Inl Exception, w)"
proof -
  have c: "(if truthy col_lst then verif_cols col_lst else Inr ()) =
           (if \<exists>cs. col_lst = Some cs \<and> cs \<noteq> [] \<and> \<not> set cs \<subseteq> set COLUMNS
            then Inl Exception else Inr ())"
    by (cases col_lst rule: truthy.cases)
      (simp_all add: verif_cols_def verif_cols_loop_iff del: verif_cols_loop.simps)
  have t: "(if truthy tickers_lst then verify_tickers dic tickers_lst else Inr ()) =
           (if \<exists>ts. tickers_lst = Some ts \<and> ts \<noteq> [] \<and> \<not> set ts \<subseteq> set (dict_keys dic)
            then Inl Exception else Inr ())"
    by (cases tickers_lst rule: truthy.cases)
      (simp_all add: verify_tickers_def verify_tickers_loop_iff del: verify_tickers_loop.simps)
  have n: "(if \<not> truthy col_lst then None else col_lst) = col_lst \<or> \<not> truthy col_lst"
    by simp
  show ?thesis
  proof (cases "\<exists>cs. col_lst = Some cs \<and> cs \<noteq> [] \<and> \<not> set cs \<subseteq> set COLUMNS")
    case True
    then have "truthy col_lst" by (cases col_lst rule: truthy.cases) auto
    with True c show ?thesis
      by (simp add: create_data_dict_def)
  next
    case False
    with assms have "\<exists>ts. tickers_lst = Some ts \<and> ts \<noteq> [] \<and> \<not> set ts \<subseteq> set (dict_keys dic)"
      by blast
    with False c t show ?thesis
      by (cases "truthy col_lst") (simp_all add: create_data_dict_def)
  qed
qed

lemma dict_keys_dict_set:
  "dict_keys (dict_set d k v) =
     (if k \<in> set (dict_keys d) then dict_keys d else dict_keys d @ [k])"
  by (induction d k v rule: dict_set.induct) (auto simp: dict_keys_def)

lemma set_dict_set: "set (dict_set d k v) \<subseteq> insert (k, v) (set d)"
  by (induction d k v rule: dict_set.induct) auto

lemma process_ticker_data_records:
  assumes "\<not> truthy col_lst" and "process_ticker_data dic col_lst w t = (Inr td, w')"
  shows "\<forall>r \<in> set (data td). dict_keys r = COLUMNS"
proof -
  from assms(2) obtain raw recs where "process_lines col_lst raw = Inr recs" and "data td = recs"
    by (auto simp: process_ticker_data_def split: prod.splits sum.splits)
  with process_lines_all_columns [OF assms(1)] show ?thesis by blast
qed

lemma collect_Cons_Inr:
  assumes "collect dic col_lst w (t # ts) acc = (Inr out, w')"
  obtains td w1 where "process_ticker_data dic col_lst w t = (Inr td, w1)"
    and "collect dic col_lst w1 ts (dict_set acc t td) = (Inr out, w')"
  using assms by (auto split: prod.splits sum.splits)

lemma collect_keys:
  "collect dic col_lst w ts acc = (Inr out, w') \<Longrightarrow>
   set (dict_keys out) = set (dict_keys acc) \<union> set ts"
proof (induction ts arbitrary: w acc)
  case Nil
  then show ?case by simp
next
  case (Cons t ts)
  from Cons.prems obtain td w1 where
    "collect dic col_lst w1 ts (dict_set acc t td) = (Inr out, w')"
    by (rule collect_Cons_Inr)
  from Cons.IH [OF this] show ?case
    by (auto simp: dict_keys_dict_set split: if_splits)
qed

lemma collect_distinct:
  "collect dic col_lst w ts acc = (Inr out, w') \<Longrightarrow> distinct (dict_keys acc) \<Longrightarrow>
   distinct (dict_keys out)"
proof (induction ts arbitrary: w acc)
  case Nil
  then show ?case by simp
next
  case (Cons t ts)
  from Cons.prems(1) obtain td w1 where
    c: "collect dic col_lst w1 ts (dict_set acc t td) = (Inr out, w')"
    by (rule collect_Cons_Inr)
  have "distinct (dict_keys (dict_set acc t td))"
    using Cons.prems(2) by (simp add: dict_keys_dict_set)
  with Cons.IH [OF c] show ?case .
qed

lemma collect_keys_order:
  "collect dic col_lst w ts acc = (Inr out, w') \<Longrightarrow> distinct (dict_keys acc @ ts) \<Longrightarrow>
   dict_keys out = dict_keys acc @ ts"
proof (induction ts arbitrary: w acc)
  case Nil
  then show ?case by simp
next
  case (Cons t ts)
  from Cons.prems(1) obtain td w1 where
    c: "collect dic col_lst w1 ts (dict_set acc t td) = (Inr out, w')"
    by (rule collect_Cons_Inr)
  have k: "dict_keys (dict_set acc t td) = dict_keys acc @ [t]"
    using Cons.prems(2) by (simp add: dict_keys_dict_set)
  have "distinct (dict_keys (dict_set acc t td) @ ts)"
    unfolding k using Cons.prems(2) by auto
  from Cons.IH [OF c this] k show ?case by simp
qed

lemma collect_records:
  assumes "\<not> truthy col_lst"
  shows "collect dic col_lst w ts acc = (Inr out, w') \<Longrightarrow>
    \<forall>(t, td) \<in> set acc. \<forall>r \<in> set (data td). dict_keys r = COLUMNS \<Longrightarrow>
    \<forall>(t, td) \<in> set out. \<forall>r \<in> set (data td). dict_keys r = COLUMNS"
proof (induction ts arbitrary: w acc)
  case Nil
  then show ?case by simp
next
  case (Cons t ts)
  from Cons.prems(1) obtain td w1 where
    p: "process_ticker_data dic col_lst w t = (Inr td, w1)" and
    c: "collect dic col_lst w1 ts (dict_set acc t td) = (Inr out, w')"
    by (rule collect_Cons_Inr)
  have "\<forall>(t, td) \<in> set (dict_set acc t td). \<forall>r \<in> set (data td). dict_keys r = COLUMNS"
    using set_dict_set [of acc t td] Cons.prems(2) process_ticker_data_records [OF assms p]
    by fastforce
  from Cons.IH [OF c this] show ?case .
qed

lemma collect_present:
  assumes "\<forall>t \<in> set ts. t \<in> set (dict_keys dic) \<and> files w (dat_path w t) \<noteq> None"
  shows "\<exists>out. collect dic col_lst w ts acc =
           (Inr out, w\<lparr>opened := opened w @ map (dat_path w) ts\<rparr>)"
  using assms
proof (induction ts arbitrary: w acc)
  case Nil
  then show ?case by simp
next
  case (Cons t ts)
  let ?w1 = "w\<lparr>opened := opened w @ [dat_path w t]\<rparr>"
  from Cons.prems obtain content where f: "files w (dat_path w t) = Some content"
    by auto
  from Cons.prems have k: "t \<in> set (dict_keys dic)" by simp
  from process_ticker_data_present [OF f k, of col_lst] obtain td where
    p: "process_ticker_data dic col_lst w t = (Inr td, ?w1)"
    by blast
  have "\<forall>t \<in> set ts. t \<in> set (dict_keys dic) \<and> files ?w1 (dat_path ?w1 t) \<noteq> None"
    using Cons.prems by (simp add: dat_path_opened)
  from Cons.IH [OF this, of "dict_set acc t td"] p show ?case
    by (simp add: dat_path_opened)
qed

lemma collect_missing:
  assumes "\<forall>t \<in> set ts. t \<in> set (dict_keys dic)"
    and "\<exists>t \<in> set ts. files w (dat_path w t) = None"
  shows "\<exists>t' \<in> set ts. files w (dat_path w t') = None \<and>
           fst (collect dic col_lst w ts acc) = Inl (open_error w (dat_path w t'))"
  using assms
proof (induction ts arbitrary: w acc)
  case Nil
  then show ?case by simp
next
  case (Cons t ts)
  let ?w1 = "w\<lparr>opened := opened w @ [dat_path w t]\<rparr>"
  show ?case
  proof (cases "files w (dat_path w t)")
    case None
    then show ?thesis
      by (simp add: process_ticker_data_missing)
  next
    case (Some content)
    from Cons.prems(1) have k: "t \<in> set (dict_keys dic)" by simp
    from process_ticker_data_present [OF Some k, of col_lst] obtain td where
      p: "process_ticker_data dic col_lst w t = (Inr td, ?w1)"
      by blast
    have 1: "\<forall>t \<in> set ts. t \<in> set (dict_keys dic)"
      using Cons.prems(1) by simp
    have 2: "\<exists>t \<in> set ts. files ?w1 (dat_path ?w1 t) = None"
      using Cons.prems(2) Some by (auto simp: dat_path_opened)
    from Cons.IH [OF 1 2, of "dict_set acc t td"] p show ?thesis
      by (auto simp: dat_path_opened open_error_opened)
  qed
qed

lemma target_ticker_keys:
  "\<forall>ts. tickers_lst = Some ts \<longrightarrow> set ts \<subseteq> set (dict_keys dic) \<Longrightarrow>
   set (target_ticker dic tickers_lst) \<subseteq> set (dict_keys dic)"
  by (cases tickers_lst rule: truthy.cases) (auto simp: target_ticker_def)

lemma create_data_dict_valid:
  assumes "\<forall>ts. tickers_lst = Some ts \<longrightarrow> set ts \<subseteq> set (dict_keys dic)"
    and "\<forall>cs. col_lst = Some cs \<longrightarrow> set cs \<subseteq> set COLUMNS"
  shows "create_data_dict w dic tickers_lst col_lst =
         collect dic (if truthy col_lst then col_lst else None) w
           (target_ticker dic tickers_lst) []"
proof -
  have c: "(if truthy col_lst then verif_cols col_lst else Inr ()) = Inr ()"
    using assms(2) by (cases col_lst rule: truthy.cases)
      (simp_all add: verif_cols_def verif_cols_loop_iff del: verif_cols_loop.simps)
  have t: "(if truthy tickers_lst then verify_tickers dic tickers_lst else Inr ()) = Inr ()"
    using assms(1) by (cases tickers_lst rule: truthy.cases)
      (simp_all add: verify_tickers_def verify_tickers_loop_iff del: verify_tickers_loop.simps)
  show ?thesis
    using c t by (cases "truthy col_lst") (simp_all add: create_data_dict_def)
qed

lemma example_dat_path:
  "dat_path example_world ''aapl'' = ''data/aapl_prc.dat''"
  "dat_path example_world ''msft'' = ''data/msft_prc.dat''"
  by (simp_all add: dat_path_def path_join_def example_world_def)

lemma example_files:
  "files example_world ''data/aapl_prc.dat'' = Some example_line"
  "files example_world ''data/msft_prc.dat'' = None"
  by (simp_all add: example_world_def)

text \<open>
  C5. A ticker list that is given, not empty and holds a symbol that is not a key of
  \<open>tic_exchange_dic\<close>, or a column list that is given, not empty and holds a name outside
  \<open>COLUMNS\<close>, makes \<open>create_data_dict\<close> raise the validation exception with the world
  as it was: no file has been opened, and there is no partial result.
\<close>

theorem create_data_dict_validation:
  assumes "(\<exists>ts. tickers_lst = Some ts \<and> ts \<noteq> [] \<and> \<not> set ts \<subseteq> set (dict_keys dic)) \<or>
           (\<exists>cs. col_lst = Some cs \<and> cs \<noteq> [] \<and> \<not> set cs \<subseteq> set COLUMNS)"
  shows "create_data_dict w dic tickers_lst col_lst = (Inl Exception, w) \<and>
         opened (snd (create_data_dict w dic tickers_lst col_lst)) = opened w"
  using create_data_dict_invalid [OF assms] by simp

theorem create_data_dict_validation_witness:
  "create_data_dict example_world [(''aapl'', ''nasdaq'')] (Some [''aapl'', ''nope'']) None =
     (Inl Exception, example_world) \<and>
   create_data_dict example_world [(''aapl'', ''nasdaq'')] None (Some [''Date'', ''NotACol'']) =
     (Inl Exception, example_world)"
  using
    create_data_dict_validation [of "Some [''aapl'', ''nope'']" "[(''aapl'', ''nasdaq'')]" None
      example_world]
    create_data_dict_validation [of None "[(''aapl'', ''nasdaq'')]" "Some [''Date'', ''NotACol'']"
      example_world]
  by (simp add: dict_keys_def COLUMNS_def)

text \<open>
  C8. When every key of \<open>tic_exchange_dic\<close> has a data file,
  \<open>create_data_dict tic_exchange_dic None None\<close> returns a dictionary with exactly one
  entry per key (in the order of the keys, when these are distinct as in a Python
  dictionary), and every record of every entry has the six schema columns.
\<close>

theorem create_data_dict_all_tickers:
  assumes "\<forall>t \<in> set (dict_keys dic). files w (dat_path w t) \<noteq> None"
  shows "\<exists>out w'. create_data_dict w dic None None = (Inr out, w') \<and>
           distinct (dict_keys out) \<and> set (dict_keys out) = set (dict_keys dic) \<and>
           (distinct (dict_keys dic) \<longrightarrow> dict_keys out = dict_keys dic) \<and>
           (\<forall>(t, td) \<in> set out. \<forall>r \<in> set (data td). dict_keys r = COLUMNS)"
proof -
  have e: "create_data_dict w dic None None = collect dic None w (dict_keys dic) []"
    by (simp add: create_data_dict_valid target_ticker_def)
  from assms obtain out where
    c: "collect dic None w (dict_keys dic) [] =
          (Inr out, w\<lparr>opened := opened w @ map (dat_path w) (dict_keys dic)\<rparr>)"
    using collect_present [of "dict_keys dic" dic w None "[]"] by auto
  have "distinct (dict_keys out)"
    using collect_distinct [OF c] by (simp add: dict_keys_def)
  moreover have "set (dict_keys out) = set (dict_keys dic)"
    using collect_keys [OF c] by (simp add: dict_keys_def)
  moreover have "distinct (dict_keys dic) \<longrightarrow> dict_keys out = dict_keys dic"
    using collect_keys_order [OF c] by (simp add: dict_keys_def)
  moreover have "\<forall>(t, td) \<in> set out. \<forall>r \<in> set (data td). dict_keys r = COLUMNS"
    using collect_records [OF _ c] by simp
  ultimately show ?thesis
    using e c by simp
qed

theorem create_data_dict_all_tickers_witness:
  "\<exists>out w'. create_data_dict example_world [(''aapl'', ''nasdaq'')] None None = (Inr out, w') \<and>
       dict_keys out = [''aapl''] \<and>
       (\<forall>(t, td) \<in> set out. \<forall>r \<in> set (data td). dict_keys r = COLUMNS)"
  using create_data_dict_all_tickers [of "[(''aapl'', ''nasdaq'')]" example_world]
  by (auto simp add: dict_keys_def [of "[(''aapl'', ''nasdaq'')]"] example_dat_path example_files)

lemma example_open_error:
  "open_error example_world ''data/msft_prc.dat'' = FileNotFoundError ''data/msft_prc.dat''"
  by (simp add: open_error_def NUL_def example_world_def)

text \<open>
  C9. When a target ticker has no data file, \<open>read_dat\<close> fails for it with the error
  that \<open>open\<close> raises, and \<open>create_data_dict\<close> returns no dictionary. When the ticker and
  column lists pass validation, the error of \<open>create_data_dict\<close> is, unchanged, the error
  that \<open>read_dat\<close> raises for a target ticker without a file: the ticker is not skipped.
  For a path without a NUL character that error is FileNotFoundError, or another OSError
  when the operating system refuses the path.
\<close>

theorem create_data_dict_missing_file:
  assumes "t \<in> set (target_ticker dic tickers_lst)" and "files w (dat_path w t) = None"
  shows "fst (read_dat w t) = Inl (open_error w (dat_path w t)) \<and>
         (\<exists>e. fst (create_data_dict w dic tickers_lst col_lst) = Inl e) \<and>
         ((\<forall>ts. tickers_lst = Some ts \<longrightarrow> set ts \<subseteq> set (dict_keys dic)) \<and>
          (\<forall>cs. col_lst = Some cs \<longrightarrow> set cs \<subseteq> set COLUMNS) \<longrightarrow>
          (\<exists>t' \<in> set (target_ticker dic tickers_lst).
              files w (dat_path w t') = None \<and>
              fst (read_dat w t') = Inl (open_error w (dat_path w t')) \<and>
              fst (create_data_dict w dic tickers_lst col_lst) =
                Inl (open_error w (dat_path w t')))) \<and>
         (\<forall>p. NUL \<notin> set p \<longrightarrow>
              open_error w p = (if refused w p then OSError p else FileNotFoundError p))"
proof -
  let ?valid = "(\<forall>ts. tickers_lst = Some ts \<longrightarrow> set ts \<subseteq> set (dict_keys dic)) \<and>
                (\<forall>cs. col_lst = Some cs \<longrightarrow> set cs \<subseteq> set COLUMNS)"
  have r: "fst (read_dat w t) = Inl (open_error w (dat_path w t))"
    using assms(2) by (simp add: read_dat_missing)
  have v: "\<exists>t' \<in> set (target_ticker dic tickers_lst).
              files w (dat_path w t') = None \<and>
              fst (read_dat w t') = Inl (open_error w (dat_path w t')) \<and>
              fst (create_data_dict w dic tickers_lst col_lst) =
                Inl (open_error w (dat_path w t'))" if ?valid
  proof -
    from that have k: "\<forall>t \<in> set (target_ticker dic tickers_lst). t \<in> set (dict_keys dic)"
      using target_ticker_keys [of tickers_lst dic] by blast
    have m: "\<exists>t \<in> set (target_ticker dic tickers_lst). files w (dat_path w t) = None"
      using assms by blast
    from collect_missing [OF k m, of "if truthy col_lst then col_lst else None" "[]"]
    obtain t' where t': "t' \<in> set (target_ticker dic tickers_lst)"
      and f: "files w (dat_path w t') = None"
      and c: "fst (collect dic (if truthy col_lst then col_lst else None) w
             (target_ticker dic tickers_lst) []) = Inl (open_error w (dat_path w t'))"
      by blast
    have "fst (read_dat w t') = Inl (open_error w (dat_path w t'))"
      using f by (simp add: read_dat_missing)
    moreover have "fst (create_data_dict w dic tickers_lst col_lst) =
        Inl (open_error w (dat_path w t'))"
      using that c by (simp add: create_data_dict_valid)
    ultimately show ?thesis
      using t' f by blast
  qed
  have e: "\<exists>e. fst (create_data_dict w dic tickers_lst col_lst) = Inl e"
  proof (cases ?valid)
    case True
    from v [OF this] show ?thesis by auto
  next
    case False
    then have "(\<exists>ts. tickers_lst = Some ts \<and> ts \<noteq> [] \<and> \<not> set ts \<subseteq> set (dict_keys dic)) \<or>
               (\<exists>cs. col_lst = Some cs \<and> cs \<noteq> [] \<and> \<not> set cs \<subseteq> set COLUMNS)"
      by auto
    from create_data_dict_invalid [OF this] show ?thesis by simp
  qed
  have o: "\<forall>p. NUL \<notin> set p \<longrightarrow>
              open_error w p = (if refused w p then OSError p else FileNotFoundError p)"
    by (simp add: open_error_def)
  from r e v o show ?thesis by blast
qed

theorem create_data_dict_missing_file_witness:
  "fst (read_dat example_world ''msft'') = Inl (FileNotFoundError ''data/msft_prc.dat'') \<and>
   fst (create_data_dict example_world [(''aapl'', ''nasdaq''), (''msft'', ''nasdaq'')]
          (Some [''aapl'', ''msft'']) None) = Inl (FileNotFoundError ''data/msft_prc.dat'')"
  using create_data_dict_missing_file [of "''msft''" "[(''aapl'', ''nasdaq''), (''msft'', ''nasdaq'')]"
      "Some [''aapl'', ''msft'']" example_world None]
  by (simp add: target_ticker_def dict_keys_def example_dat_path example_files
      example_open_error)

section \<open>Empty lists and the example of the specification\<close>

lemma target_ticker_falsy: "target_ticker dic (Some []) = target_ticker dic None"
  by (simp add: target_ticker_def)

lemma create_data_dict_falsy_tickers:
  "create_data_dict w dic (Some []) col_lst = create_data_dict w dic None col_lst"
  unfolding create_data_dict_def target_ticker_falsy by simp

lemma create_data_dict_falsy_cols:
  "create_data_dict w dic tickers_lst (Some []) = create_data_dict w dic tickers_lst None"
  by (simp add: create_data_dict_def)

lemma create_data_dict_empty_tickers_not_Exception:
  "fst (create_data_dict w dic (Some []) None) \<noteq> Inl Exception"
proof -
  have "create_data_dict w dic (Some []) None = collect dic None w (dict_keys dic) []"
    by (simp add: create_data_dict_def target_ticker_def)
  then show ?thesis
    by (simp add: collect_not_Exception)
qed

lemma create_data_dict_empty_columns_not_Exception:
  "fst (create_data_dict w dic None (Some [])) \<noteq> Inl Exception"
proof -
  have "create_data_dict w dic None (Some []) = collect dic None w (dict_keys dic) []"
    by (simp add: create_data_dict_def target_ticker_def)
  then show ?thesis
    by (simp add: collect_not_Exception)
qed

lemma example_lines:
  "map strip (readlines (universal_newlines example_line)) = [''1002020-01-01    150.00000000000'']"
  "map strip (readlines (universal_newlines (example_line @ [LF]))) =
     [''1002020-01-01    150.00000000000'']"
  by code_simp+

lemma example_records:
  "process_lines None [''1002020-01-01    150.00000000000''] =
     Inr [[(''Volume'', ''1002020-01-01 ''), (''Date'', ''   150.0000''),
           (''Adj Close'', ''0000000''), (''Close'', []), (''Open'', []), (''High'', [])]]"
  "process_lines (Some [''Date'', ''Close'']) [''1002020-01-01    150.00000000000''] =
     Inr [[(''Date'', ''   150.0000''), (''Close'', [])]]"
  by code_simp+

lemma example_exchange: "dict_item [(''aapl'', ''nasdaq'')] ''aapl'' = Inr ''nasdaq''"
  by (simp add: dict_item_def)

lemma example_process:
  assumes "files w (dat_path w ''aapl'') = Some (example_line @ nl)" and "nl = [] \<or> nl = [LF]"
  shows "process_ticker_data [(''aapl'', ''nasdaq'')] None w ''aapl'' =
          (Inr \<lparr>exchange = ''nasdaq'',
                data = [[(''Volume'', ''1002020-01-01 ''), (''Date'', ''   150.0000''),
                         (''Adj Close'', ''0000000''), (''Close'', []), (''Open'', []),
                         (''High'', [])]]\<rparr>,
           w\<lparr>opened := opened w @ [dat_path w ''aapl'']\<rparr>)"
  using assms(2)
  by (auto simp add: process_ticker_data_def read_dat_present [OF assms(1)] example_lines
      example_records example_exchange lower_examples simp del: process_lines.simps)

text \<open>
  C1. The code departs from the claim. For the example map and the empty ticker list,
  \<open>create_data_dict\<close> raises nothing and returns the entry of \<open>aapl\<close>, as it does for an
  omitted list. \<open>verify_tickers\<close>, given the empty list, does raise, but
  \<open>create_data_dict\<close> calls it for a non-empty list only.
\<close>

theorem create_data_dict_empty_tickers_returns:
  "fst (create_data_dict example_world [(''aapl'', ''nasdaq'')] (Some []) None) =
     Inr [(''aapl'',
           \<lparr>exchange = ''nasdaq'',
            data = [[(''Volume'', ''1002020-01-01 ''), (''Date'', ''   150.0000''),
                     (''Adj Close'', ''0000000''), (''Close'', []), (''Open'', []),
                     (''High'', [])]]\<rparr>)] \<and>
   verify_tickers [(''aapl'', ''nasdaq'')] (Some []) = Inl Exception"
  using example_process [of example_world "[]"]
  by (simp add: create_data_dict_def target_ticker_def dict_keys_def example_dat_path
      example_files verify_tickers_def)

text \<open>
  C3. The code departs from the claim. For the example map and the empty column list,
  \<open>create_data_dict\<close> raises nothing and returns the record of \<open>aapl\<close> with all six
  columns, as it does for an omitted list. \<open>verif_cols\<close>, given the empty list, does
  raise, but \<open>create_data_dict\<close> replaces the empty list by \<open>None\<close> first and calls
  \<open>verif_cols\<close> for a non-empty list only.
\<close>

theorem create_data_dict_empty_columns_returns:
  "fst (create_data_dict example_world [(''aapl'', ''nasdaq'')] (Some [''aapl'']) (Some [])) =
     Inr [(''aapl'',
           \<lparr>exchange = ''nasdaq'',
            data = [[(''Volume'', ''1002020-01-01 ''), (''Date'', ''   150.0000''),
                     (''Adj Close'', ''0000000''), (''Close'', []), (''Open'', []),
                     (''High'', [])]]\<rparr>)] \<and>
   verif_cols (Some []) = Inl Exception"
  using example_process [of example_world "[]"]
  by (simp add: create_data_dict_def target_ticker_def dict_keys_def example_dat_path
      example_files verify_tickers_def verif_cols_def)






end
